theory Spec2Isabelle
  imports Main "HOL-Library.Word"
begin

section \<open>Transfer engine (rsh\_files.py)\<close>

text \<open>
  A byte of a Python \<open>bytes\<close> object is an 8-bit word. Block numbers and checksums are
  Python integers in the source; they are natural numbers here and every \<open>& 0xFF\<close> of the
  source is written \<open>mod 256\<close>.
\<close>

type_synonym byte = "8 word"

definition SOH :: byte where "SOH = 0x01"
definition STX :: byte where "STX = 0x02"
definition EOT :: byte where "EOT = 0x04"
definition ACK :: byte where "ACK = 0x06"
definition NAK :: byte where "NAK = 0x15"
definition CAN :: byte where "CAN = 0x18"

text \<open>
  The lines of text which the engine prints on the serial line (\<open>_write(ser, ...)\<close>); the
  constructor names the message, the wording is in the source.
\<close>

datatype notice =
    XmodemSendBanner | WaitingForReceiver | NoReceiverDetected
  | TransferComplete | ReceiverDidNotAckEot | CancelledByReceiver | TimeoutWaitingForAck
  | FileNotFoundNotice
  | XmodemReceiveBanner | UploadCompleteNotice | UploadCancelledBySender
  | YmodemSendBanner | YmodemTransferComplete | YmodemError

text \<open>One call of \<open>ser.write\<close>: a notice, or raw protocol bytes.\<close>

datatype wr = Msg notice | Raw "byte list"

text \<open>
  What the sender reads. The sender polls: each turn of a waiting loop looks at
  \<open>ser.in_waiting\<close> once and then sleeps. The line is a list with one entry for each poll,
  \<open>Some b\<close> when a byte \<open>b\<close> is waiting and is read, \<open>None\<close> when nothing is; after the
  end of the list nothing is ever waiting. A deadline of \<open>d\<close> seconds in a loop that sleeps
  \<open>s\<close> seconds a turn is \<open>d / s\<close> polls.
\<close>

definition start_polls :: nat where "start_polls = 400"
definition ack_polls :: nat where "ack_polls = 500"
definition eot_polls :: nat where "eot_polls = 200"

text \<open>The wait for the receiver's first NAK or ACK (20 s).\<close>

fun wait_receiver :: "nat \<Rightarrow> byte option list \<Rightarrow> bool \<times> byte option list" where
  "wait_receiver 0 inp = (False, inp)"
| "wait_receiver (Suc n) [] = wait_receiver n []"
| "wait_receiver (Suc n) (None # inp) = wait_receiver n inp"
| "wait_receiver (Suc n) (Some b # inp) =
     (if b = NAK \<or> b = ACK then (True, inp) else wait_receiver n inp)"

datatype ack_result = Acked | NoAck | Cancel

text \<open>The wait for the reply to a data packet (10 s); NAK writes the same packet again.\<close>

fun wait_ack :: "nat \<Rightarrow> byte list \<Rightarrow> byte option list \<Rightarrow> wr list
    \<Rightarrow> ack_result \<times> wr list \<times> byte option list" where
  "wait_ack 0 pkt inp out = (NoAck, out, inp)"
| "wait_ack (Suc n) pkt [] out = wait_ack n pkt [] out"
| "wait_ack (Suc n) pkt (None # inp) out = wait_ack n pkt inp out"
| "wait_ack (Suc n) pkt (Some b # inp) out =
     (if b = ACK then (Acked, out, inp)
      else if b = NAK then wait_ack n pkt inp (out @ [Raw pkt])
      else if b = CAN then (Cancel, out, inp)
      else wait_ack n pkt inp out)"

text \<open>The wait for the ACK of EOT (10 s); NAK writes EOT again.\<close>

fun wait_eot :: "nat \<Rightarrow> byte option list \<Rightarrow> wr list \<Rightarrow> bool \<times> wr list" where
  "wait_eot 0 inp out = (False, out)"
| "wait_eot (Suc n) [] out = wait_eot n [] out"
| "wait_eot (Suc n) (None # inp) out = wait_eot n inp out"
| "wait_eot (Suc n) (Some b # inp) out =
     (if b = ACK then (True, out)
      else if b = NAK then wait_eot n inp (out @ [Raw [EOT]])
      else wait_eot n inp out)"

text \<open>\<open>chunk += bytes([0x1A]) * (n - len(chunk))\<close> when the chunk is short.\<close>

definition pad_chunk :: "nat \<Rightarrow> byte list \<Rightarrow> byte list" where
  "pad_chunk n chunk =
     (if length chunk < n then chunk @ replicate (n - length chunk) 0x1A else chunk)"

text \<open>\<open>sum(chunk) & 0xFF\<close>.\<close>

definition checksum :: "byte list \<Rightarrow> nat" where
  "checksum chunk = sum_list (map unat chunk) mod 256"

text \<open>The packet built for one (padded) chunk, with its first octet \<open>start\<close>.\<close>

definition packet :: "byte \<Rightarrow> nat \<Rightarrow> byte list \<Rightarrow> byte list" where
  "packet start block_num chunk =
     [start, of_nat (block_num mod 256), of_nat (255 - block_num mod 256)]
       @ chunk @ [of_nat (checksum chunk)]"

datatype send_result =
    NoReceiver | Completed | EotNotAcked | Cancelled | AckTimeout | FileNotFound
  | TransferError

text \<open>
  The \<open>while True\<close> loop of \<open>xmodem_send\<close> over the open file: \<open>file\<close> is what has not
  been read yet, \<open>f.read(128)\<close> is \<open>take 128 file\<close>.
\<close>

function send_blocks :: "nat \<Rightarrow> byte list \<Rightarrow> byte option list \<Rightarrow> wr list
    \<Rightarrow> send_result \<times> wr list" where
  "send_blocks block_num file inp out =
     (if take 128 file = [] then
        (case wait_eot eot_polls inp (out @ [Raw [EOT]]) of
           (True, out') \<Rightarrow> (Completed, out' @ [Msg TransferComplete])
         | (False, out') \<Rightarrow> (EotNotAcked, out' @ [Msg ReceiverDidNotAckEot]))
      else
        (let pkt = packet SOH block_num (pad_chunk 128 (take 128 file)) in
         case wait_ack ack_polls pkt inp (out @ [Raw pkt]) of
           (Acked, out', inp') \<Rightarrow>
             send_blocks ((block_num + 1) mod 256) (drop 128 file) inp' out'
         | (Cancel, out', inp') \<Rightarrow> (Cancelled, out' @ [Msg CancelledByReceiver])
         | (NoAck, out', inp') \<Rightarrow> (AckTimeout, out' @ [Msg TimeoutWaitingForAck])))"
  by pat_completeness auto
termination
  by (relation "measure (\<lambda>(block_num, file, inp, out). length file)") auto

declare send_blocks.simps [simp del]

text \<open>
  \<open>xmodem_send\<close>: the file is \<open>None\<close> when \<open>open\<close> raises \<open>FileNotFoundError\<close>. Writes to
  the line do not fail.
\<close>

definition xmodem_send :: "byte list option \<Rightarrow> byte option list \<Rightarrow> send_result \<times> wr list" where
  "xmodem_send file inp =
     (case wait_receiver start_polls inp of
        (False, inp') \<Rightarrow>
          (NoReceiver, [Msg XmodemSendBanner, Msg WaitingForReceiver, Msg NoReceiverDetected])
      | (True, inp') \<Rightarrow>
          (case file of
             None \<Rightarrow>
               (FileNotFound, [Msg XmodemSendBanner, Msg WaitingForReceiver, Msg FileNotFoundNotice])
           | Some f \<Rightarrow> send_blocks 1 f inp' [Msg XmodemSendBanner, Msg WaitingForReceiver]))"

text \<open>The raw protocol bytes among what was written, one list for each write.\<close>

fun raw_writes :: "wr list \<Rightarrow> byte list list" where
  "raw_writes [] = []"
| "raw_writes (Msg m # ws) = raw_writes ws"
| "raw_writes (Raw bs # ws) = bs # raw_writes ws"

text \<open>
  The receiver strips the filler at the end of what it has accumulated:
  \<open>while received and received[-1] == 0x1A: received = received[:-1]\<close>.
\<close>

function strip_filler :: "byte list \<Rightarrow> byte list" where
  "strip_filler received =
     (if received \<noteq> [] \<and> last received = 0x1A then strip_filler (butlast received)
      else received)"
  by pat_completeness auto
termination
  by (relation "measure length") auto

declare strip_filler.simps [simp del]

datatype recv_result = UploadComplete "byte list" | UploadCancelled

text \<open>
  What the receiver reads. \<open>arrivals\<close> has one entry for each turn of the loop of
  \<open>xmodem_receive\<close>: the bytes that reach the port's buffer before that turn's
  \<open>ser.in_waiting\<close>; after the end of the list nothing arrives any more. \<open>buf\<close> is the
  buffer of the port, \<open>ser.read(n)\<close> (the port is opened with \<open>timeout=0\<close>) takes up to
  \<open>n\<close> bytes from it and does not wait. The loop has no deadline and no sleep; a run that
  never returns is \<open>None\<close>. \<open>UploadComplete f\<close> is the one place where the destination file
  is written, with contents \<open>f\<close>.
\<close>

partial_function (option) recv_loop :: "byte list list \<Rightarrow> byte list \<Rightarrow> nat \<Rightarrow> byte list
    \<Rightarrow> wr list \<Rightarrow> (recv_result \<times> wr list) option" where
  "recv_loop arrivals buf block_num received out =
     (let buf1 = buf @ (case arrivals of [] \<Rightarrow> [] | a # later \<Rightarrow> a);
          rest = tl arrivals
      in
      if buf1 = [] then recv_loop rest [] block_num received out
      else
        let c = hd buf1; buf2 = tl buf1 in
        if c = SOH then
          (let pkt = take 131 buf2; buf3 = drop 131 buf2 in
           if length pkt < 131 then
             recv_loop rest buf3 block_num received (out @ [Raw [NAK]])
           else
             let blk = pkt ! 0; nblk = pkt ! 1; data = butlast (drop 2 pkt); csum = last pkt in
             if unat blk \<noteq> block_num mod 256 \<or> unat nblk \<noteq> 255 - unat blk then
               recv_loop rest buf3 block_num received (out @ [Raw [NAK]])
             else if checksum data \<noteq> unat csum then
               recv_loop rest buf3 block_num received (out @ [Raw [NAK]])
             else
               recv_loop rest buf3 ((block_num + 1) mod 256) (received @ data)
                 (out @ [Raw [ACK]]))
        else if c = EOT then
          Some (UploadComplete (strip_filler received),
                out @ [Raw [ACK], Msg UploadCompleteNotice])
        else if c = CAN then
          Some (UploadCancelled, out @ [Msg UploadCancelledBySender])
        else recv_loop rest buf2 block_num received out)"

definition xmodem_receive :: "byte list list \<Rightarrow> (recv_result \<times> wr list) option" where
  "xmodem_receive arrivals =
     recv_loop arrivals [] 1 [] [Msg XmodemReceiveBanner, Raw [NAK]]"

text \<open>
  \<open>ymodem_send\<close>. The wait for the receiver's NAK or \<open>C\<close> has a deadline (20 s); on
  either byte the header packet is written.
\<close>

fun wait_ymodem_receiver :: "nat \<Rightarrow> byte option list \<Rightarrow> bool \<times> byte option list" where
  "wait_ymodem_receiver 0 inp = (False, inp)"
| "wait_ymodem_receiver (Suc n) [] = wait_ymodem_receiver n []"
| "wait_ymodem_receiver (Suc n) (None # inp) = wait_ymodem_receiver n inp"
| "wait_ymodem_receiver (Suc n) (Some b # inp) =
     (if b = NAK \<or> b = 0x43 then (True, inp) else wait_ymodem_receiver n inp)"

text \<open>
  The two loops \<open>while True: if ser.in_waiting: ... if b and b[0] == ACK: break\<close> of
  \<open>ymodem_send\<close>, after the header packet and after EOT. They have no deadline; a run
  that never leaves the loop is \<open>None\<close>.
\<close>

partial_function (option) wait_ack_forever :: "byte option list \<Rightarrow> byte option list option" where
  "wait_ack_forever inp =
     (case inp of
        [] \<Rightarrow> wait_ack_forever []
      | None # rest \<Rightarrow> wait_ack_forever rest
      | Some b # rest \<Rightarrow> if b = ACK then Some rest else wait_ack_forever rest)"

text \<open>The loop over the 1024-byte blocks: \<open>Inr\<close> when it ends with \<open>break\<close> at end of file.\<close>

function ymodem_blocks :: "nat \<Rightarrow> byte list \<Rightarrow> byte option list \<Rightarrow> wr list
    \<Rightarrow> (send_result + byte option list) \<times> wr list" where
  "ymodem_blocks block_num file inp out =
     (if take 1024 file = [] then (Inr inp, out)
      else
        (let pkt = packet STX block_num (pad_chunk 1024 (take 1024 file)) in
         case wait_ack ack_polls pkt inp (out @ [Raw pkt]) of
           (Acked, out', inp') \<Rightarrow>
             ymodem_blocks ((block_num + 1) mod 256) (drop 1024 file) inp' out'
         | (Cancel, out', inp') \<Rightarrow> (Inl Cancelled, out' @ [Msg CancelledByReceiver])
         | (NoAck, out', inp') \<Rightarrow> (Inl AckTimeout, out' @ [Msg TimeoutWaitingForAck])))"
  by pat_completeness auto
termination
  by (relation "measure (\<lambda>(block_num, file, inp, out). length file)") auto

declare ymodem_blocks.simps [simp del]

text \<open>\<open>str(fsize)\<close> in ASCII.\<close>

fun decimal :: "nat \<Rightarrow> byte list" where
  "decimal n = (if n < 10 then [of_nat (48 + n)] else decimal (n div 10) @ [of_nat (48 + n mod 10)])"

declare decimal.simps [simp del]

text \<open>
  \<open>fname\<close> is the file's base name in ASCII, the file exists and \<open>fsize\<close> is its length.
  \<open>bytes(128 - len(header))\<close> raises when the header is longer than 128 bytes, which the
  function reports as a YMODEM error.
\<close>

definition ymodem_send :: "byte list \<Rightarrow> byte list \<Rightarrow> byte option list
    \<Rightarrow> (send_result \<times> wr list) option" where
  "ymodem_send fname file inp =
     (let header0 = fname @ [0] @ decimal (length file) in
      if 128 < length header0 then Some (TransferError, [Msg YmodemSendBanner, Msg YmodemError])
      else
        let header = header0 @ replicate (128 - length header0) 0;
            pkt0 = [SOH, 0x00, 0xFF] @ header @ [of_nat (checksum header)]
        in
        case wait_ymodem_receiver start_polls inp of
          (False, inp1) \<Rightarrow> Some (NoReceiver, [Msg YmodemSendBanner, Msg NoReceiverDetected])
        | (True, inp1) \<Rightarrow>
            (case wait_ack_forever inp1 of
               None \<Rightarrow> None
             | Some inp2 \<Rightarrow>
                 (case ymodem_blocks 1 file inp2 [Msg YmodemSendBanner, Raw pkt0] of
                    (Inl r, out) \<Rightarrow> Some (r, out)
                  | (Inr inp3, out) \<Rightarrow>
                      (case wait_ack_forever inp3 of
                         None \<Rightarrow> None
                       | Some inp4 \<Rightarrow>
                           Some (Completed,
                                 out @ [Raw [EOT], Msg YmodemTransferComplete])))))"

subsection \<open>The packets of the specification\<close>

text \<open>
  The specification's description of XMODEM send, by position in the file: the file is cut
  into 128-byte chunks, the final chunk is filled up to 128 bytes with \<open>0x1A\<close>, and chunk
  number \<open>i\<close> (counted from 0) goes out as block \<open>i + 1\<close> in the frame SOH, block number
  mod 256, 255 minus that, the 128 data bytes, the sum of the data bytes mod 256.
\<close>

definition nblocks :: "byte list \<Rightarrow> nat" where
  "nblocks file = (length file + 127) div 128"

definition spec_chunk :: "byte list \<Rightarrow> nat \<Rightarrow> byte list" where
  "spec_chunk file i =
     (let c = take 128 (drop (128 * i) file) in
      if Suc i = nblocks file then c @ replicate (128 - length c) 0x1A else c)"

definition spec_frame :: "byte list \<Rightarrow> nat \<Rightarrow> byte list" where
  "spec_frame file i =
     [SOH, of_nat (Suc i mod 256), of_nat (255 - Suc i mod 256)]
       @ spec_chunk file i
       @ [of_nat (sum_list (map unat (spec_chunk file i)) mod 256)]"

definition spec_frames :: "byte list \<Rightarrow> byte list list" where
  "spec_frames file = map (spec_frame file) [0..<nblocks file]"

text \<open>
  The replies of a receiver that asks for the transfer with NAK and acknowledges every
  block and the EOT at once.
\<close>

definition all_acked :: "byte list \<Rightarrow> byte option list" where
  "all_acked file = Some NAK # replicate (nblocks file) (Some ACK) @ [Some ACK]"

subsection \<open>Auxiliary functions for the transfer engine\<close>

text \<open>The packets which the loop of \<open>xmodem_send\<close> writes when each is acknowledged.\<close>

function frames_from :: "nat \<Rightarrow> byte list \<Rightarrow> byte list list" where
  "frames_from block_num file =
     (if file = [] then []
      else packet SOH block_num (pad_chunk 128 (take 128 file))
             # frames_from ((block_num + 1) mod 256) (drop 128 file))"
  by pat_completeness auto
termination
  by (relation "measure (\<lambda>(block_num, file). length file)") auto

declare frames_from.simps [simp del]

text \<open>The file with the filler which the sender appends to its last chunk.\<close>

definition padded :: "byte list \<Rightarrow> byte list" where
  "padded fl = fl @ replicate (128 * nblocks fl - length fl) 0x1A"

text \<open>What a returning run of the receiver's loop has read and what it leaves.\<close>

definition recv_post :: "byte list list \<Rightarrow> byte list \<Rightarrow> recv_result \<Rightarrow> bool" where
  "recv_post arrivals buf r =
     (case r of
        UploadComplete f \<Rightarrow> (f = [] \<or> last f \<noteq> 0x1A) \<and> EOT \<in> set (buf @ concat arrivals)
      | UploadCancelled \<Rightarrow> CAN \<in> set (buf @ concat arrivals))"

section \<open>Text helpers\<close>

text \<open>
  Python's \<open>str.strip\<close>, \<open>str.upper\<close>, \<open>int\<close>, \<open>str\<close> and \<open>str.encode\<close>. A text is a list
  of characters with code points below 256 (ISO 8859-1), the range of the type \<open>char\<close>.
  The characters which \<open>strip\<close> removes are those for which \<open>str.isspace\<close> holds: in
  this range the ASCII white space, the separators \<open>0x1C\<close> to \<open>0x1F\<close>, NEL (\<open>0x85\<close>) and
  the no-break space (\<open>0xA0\<close>).
\<close>

definition is_space :: "char \<Rightarrow> bool" where
  "is_space c = (of_char c \<in> {9, 10, 11, 12, 13, 28, 29, 30, 31, 32, 133, 160 :: nat})"

definition py_strip :: "string \<Rightarrow> string" where
  "py_strip s = rev (dropWhile is_space (rev (dropWhile is_space s)))"

text \<open>
  \<open>str.upper\<close>, character by character: the letters \<open>a\<close> to \<open>z\<close> and \<open>0xE0\<close> to \<open>0xFE\<close>
  (without the division sign \<open>0xF7\<close>) move down by 32, the sharp s (\<open>0xDF\<close>) becomes
  \<open>SS\<close>. The upper-case forms of the micro sign (\<open>0xB5\<close>) and of y with diaeresis
  (\<open>0xFF\<close>) are U+039C and U+0178, which are no values of the type \<open>char\<close>; the two
  characters stand for them, and no other character of the range has them as its upper-case
  form.
\<close>

definition upper_char :: "char \<Rightarrow> string" where
  "upper_char c =
     (if (97 \<le> (of_char c :: nat) \<and> (of_char c :: nat) \<le> 122)
         \<or> (224 \<le> (of_char c :: nat) \<and> (of_char c :: nat) \<le> 254 \<and> (of_char c :: nat) \<noteq> 247)
      then [char_of (of_char c - 32 :: nat)]
      else if (of_char c :: nat) = 223 then ''SS''
      else [c])"

definition py_upper :: "string \<Rightarrow> string" where
  "py_upper s = concat (map upper_char s)"

definition is_digit :: "char \<Rightarrow> bool" where
  "is_digit c = (48 \<le> (of_char c :: nat) \<and> (of_char c :: nat) \<le> 57)"

text \<open>The value of a string of digits, most significant first, on top of \<open>acc\<close>.\<close>

fun digits_value :: "nat \<Rightarrow> string \<Rightarrow> nat" where
  "digits_value acc [] = acc"
| "digits_value acc (c # cs) = digits_value (10 * acc + (of_char c - 48)) cs"

text \<open>
  Digits with single underscores between them, as \<open>int\<close> accepts them: \<open>prev\<close> tells
  whether the character before was a digit.
\<close>

fun digit_groups :: "bool \<Rightarrow> string \<Rightarrow> bool" where
  "digit_groups prev [] = prev"
| "digit_groups prev (c # cs) =
     (if is_digit c then digit_groups True cs
      else if c = CHR ''_'' \<and> prev then digit_groups False cs
      else False)"

text \<open>
  \<open>int\<close> raises \<open>ValueError\<close> also when the text has more digits than
  \<open>sys.get_int_max_str_digits()\<close>, which is 4300 unless the interpreter was configured
  otherwise; underscores and the sign are not counted.
\<close>

definition max_str_digits :: nat where "max_str_digits = 4300"

definition py_nat :: "string \<Rightarrow> nat option" where
  "py_nat s =
     (if digit_groups False s \<and> length (filter is_digit s) \<le> max_str_digits
      then Some (digits_value 0 (filter is_digit s)) else None)"

text \<open>\<open>int(txt)\<close> on a stripped text; \<open>None\<close> is \<open>ValueError\<close>.\<close>

definition py_int :: "string \<Rightarrow> int option" where
  "py_int s =
     (case s of
        [] \<Rightarrow> None
      | c # cs \<Rightarrow>
          if c = CHR ''-'' then map_option (\<lambda>n. - int n) (py_nat cs)
          else if c = CHR ''+'' then map_option int (py_nat cs)
          else map_option int (py_nat s))"

fun str_nat :: "nat \<Rightarrow> string" where
  "str_nat n = (if n < 10 then [char_of (48 + n)] else str_nat (n div 10) @ [char_of (48 + n mod 10)])"

declare str_nat.simps [simp del]

definition str_int :: "int \<Rightarrow> string" where
  "str_int i = (if i < 0 then CHR ''-'' # str_nat (nat (- i)) else str_nat (nat i))"

section \<open>Port registry (RETRO\_SERIAL\_HUB.py, rsh\_bridge.py)\<close>

text \<open>
  A \<open>serial.Serial\<close> object: its identity and its \<open>port\<close> attribute, the name with which
  it was opened.
\<close>

record serial_port =
  ident :: nat
  port :: string

text \<open>An entry of \<open>ACTIVE_PORTS\<close>: \<open>{'thread': name, 'serial': ser}\<close>.\<close>

record owner =
  thread :: string
  serial :: serial_port

text \<open>
  The two global collections which the workers and the bridge module share, and the serial
  objects and sockets on which \<open>close()\<close> has been called. No lock guards them in the
  source; each function below is one statement or one run of statements of one thread.
\<close>

record world =
  ACTIVE_PORTS :: "string \<rightharpoonup> owner"
  SURRENDERED_PORTS :: "string set"
  closed :: "nat set"
  closed_sockets :: "nat set"

definition empty_world :: world where
  "empty_world = \<lparr>ACTIVE_PORTS = Map.empty, SURRENDERED_PORTS = {}, closed = {},
     closed_sockets = {}\<rparr>"

text \<open>\<open>port_worker\<close>: \<open>ACTIVE_PORTS[cfg['port'].upper()] = {'thread': name, 'serial': ser}\<close>.\<close>

definition register :: "string \<Rightarrow> string \<Rightarrow> serial_port \<Rightarrow> world \<Rightarrow> world" where
  "register name p ser w =
     w\<lparr>ACTIVE_PORTS := (ACTIVE_PORTS w)(py_upper p \<mapsto> \<lparr>thread = name, serial = ser\<rparr>)\<rparr>"

text \<open>\<open>port_worker\<close>: \<open>ACTIVE_PORTS.pop(cfg['port'].upper(), None)\<close>.\<close>

definition unregister :: "string \<Rightarrow> world \<Rightarrow> world" where
  "unregister p w = w\<lparr>ACTIVE_PORTS := (ACTIVE_PORTS w)(py_upper p := None)\<rparr>"

text \<open>
  The take-over in \<open>rsh_bridge.handle_input\<close> is three statements, in this order:
  \<open>surrendered.add(port_name.upper())\<close>, \<open>owner_ser.close()\<close>,
  \<open>active.pop(port_name.upper(), None)\<close>.
\<close>

definition mark_surrendered :: "string \<Rightarrow> world \<Rightarrow> world" where
  "mark_surrendered p w = w\<lparr>SURRENDERED_PORTS := insert (py_upper p) (SURRENDERED_PORTS w)\<rparr>"

definition close_owner :: "string \<Rightarrow> world \<Rightarrow> world" where
  "close_owner p w =
     (case ACTIVE_PORTS w (py_upper p) of
        None \<Rightarrow> w
      | Some ow \<Rightarrow> w\<lparr>closed := insert (ident (serial ow)) (closed w)\<rparr>)"

definition drop_active :: "string \<Rightarrow> world \<Rightarrow> world" where
  "drop_active p w = w\<lparr>ACTIVE_PORTS := (ACTIVE_PORTS w)(py_upper p := None)\<rparr>"

definition take_over :: "string \<Rightarrow> world \<Rightarrow> world" where
  "take_over p w = drop_active p (close_owner p (mark_surrendered p w))"

text \<open>
  \<open>rsh_bridge.handle_input_runtime\<close>, on ATH:
  \<open>sess['surrendered_ports'].discard(pname.upper())\<close>.
\<close>

definition restore :: "string \<Rightarrow> world \<Rightarrow> world" where
  "restore p w = w\<lparr>SURRENDERED_PORTS := SURRENDERED_PORTS w - {py_upper p}\<rparr>"

text \<open>No port is both owned and surrendered.\<close>

definition exclusive :: "world \<Rightarrow> bool" where
  "exclusive w = (dom (ACTIVE_PORTS w) \<inter> SURRENDERED_PORTS w = {})"

section \<open>Bridge component (rsh\_bridge.py)\<close>

text \<open>
  What the module prints on the session's own line; the wording is in the source. The
  module's writes to that line are taken to succeed.
\<close>

datatype bridge_notice =
    IntroBanner | AskPortNumber | InvalidPortNumber
  | AskBaud | InvalidBaud | AskDataBits | InvalidDataBits | AskStopBits | InvalidStopBits
  | AskParity | InvalidParity | AskXonXoff | InvalidXonXoff | AskRtsCts | InvalidRtsCts
  | TakingOver string | UnableToOpen string | PressAnyKey

text \<open>The dictionary \<open>sess['values']\<close>: a key that is not set yet is \<open>None\<close>.\<close>

record bridge_values =
  port_num :: "int option"
  baud :: "int option"
  data_bits :: "int option"
  stop_bits :: "int option"
  parity :: "char option"
  xonxoff :: "bool option"
  rtscts :: "bool option"

record prompt_session =
  stage :: nat
  vals :: bridge_values

definition create_session :: "prompt_session \<times> bridge_notice list" where
  "create_session =
     (\<lparr>stage = 0,
       vals = \<lparr>port_num = None, baud = None, data_bits = None, stop_bits = None,
                 parity = None, xonxoff = None, rtscts = None\<rparr>\<rparr>,
      [IntroBanner, AskPortNumber])"

text \<open>What \<open>handle_input\<close> hands back to the hub besides \<open>consumed = True\<close>.\<close>

datatype action = NoAction | OpenBridge serial_port string | Menu

text \<open>A call either returns or lets an exception escape to the caller.\<close>

datatype 'a result = Raises | Returns 'a

text \<open>
  \<open>for attempt in range(6)\<close>: \<open>opens i\<close> is what the \<open>i\<close>-th call of \<open>serial.Serial\<close>
  gives, \<open>None\<close> when it raises. The sleeps between the attempts are left out.
\<close>

fun open_from :: "(nat \<Rightarrow> serial_port option) \<Rightarrow> nat \<Rightarrow> nat \<Rightarrow> serial_port option" where
  "open_from opens i 0 = None"
| "open_from opens i (Suc n) =
     (case opens i of Some s \<Rightarrow> Some s | None \<Rightarrow> open_from opens (Suc i) n)"

text \<open>The answer to a yes/no prompt: \<open>None\<close> is an invalid answer.\<close>

definition yes_no :: "string \<Rightarrow> bool option" where
  "yes_no txt =
     (if txt = [] then Some False
      else if hd txt = CHR ''Y'' then Some True
      else if hd txt = CHR ''N'' then Some False
      else None)"

text \<open>
  The end of stage 6, after all prompts are collected. \<open>nt\<close> tells whether \<open>os.name\<close> is
  \<open>'nt'\<close>; \<open>env\<close> is the operating system: \<open>env name i\<close> is the outcome of the \<open>i\<close>-th
  attempt to open \<open>name\<close>. The hub passes its two collections to the module, so
  \<open>active\<close> and \<open>surrendered\<close> are the dictionary and the set of the world.
  \<open>v['port_num']\<close> is read outside the \<open>try\<close>; a missing key inside it ends in the
  handler of the \<open>try\<close>, a missing key inside an attempt counts as a failed attempt.
\<close>

definition open_bridge :: "bool \<Rightarrow> (string \<Rightarrow> nat \<Rightarrow> serial_port option) \<Rightarrow> prompt_session
    \<Rightarrow> world \<Rightarrow> (prompt_session \<times> world \<times> bridge_notice list \<times> action) result" where
  "open_bridge nt env sess w =
     (case port_num (vals sess) of
        None \<Rightarrow> Raises
      | Some pn \<Rightarrow>
          let v = vals sess;
              port_name = ''COM'' @ str_int pn;
              failed = (\<lambda>w' said. Returns (sess\<lparr>stage := 0\<rparr>, w',
                          said @ [UnableToOpen port_name, PressAnyKey, IntroBanner, AskPortNumber],
                          NoAction))
          in
          if data_bits v = None \<or> parity v = None \<or> stop_bits v = None then failed w []
          else
            let owned = (py_upper port_name \<in> dom (ACTIVE_PORTS w));
                w1 = (if owned then take_over port_name w else w);
                said = (if owned then [TakingOver port_name] else []);
                port_to_open =
                  (if nt \<and> 10 \<le> pn
                   then [CHR 0x5C, CHR 0x5C, CHR ''.'', CHR 0x5C, CHR 0x5C] @ port_name
                   else port_name);
                opened =
                  (if baud v = None \<or> xonxoff v = None \<or> rtscts v = None then None
                   else open_from (env port_to_open) 0 6)
            in
            case opened of
              None \<Rightarrow> failed w1 said
            | Some bridge_serial \<Rightarrow> Returns (sess, w1, said, OpenBridge bridge_serial port_name))"

definition handle_input :: "bool \<Rightarrow> (string \<Rightarrow> nat \<Rightarrow> serial_port option) \<Rightarrow> prompt_session
    \<Rightarrow> string \<Rightarrow> world \<Rightarrow> (prompt_session \<times> world \<times> bridge_notice list \<times> action) result" where
  "handle_input nt env sess line_str w =
     (let v = vals sess;
          txt = py_strip line_str;
          utxt = py_upper (py_strip line_str)
      in
      if stage sess = 0 then
        (case (if txt = [] then Some 1
               else case py_int txt of None \<Rightarrow> None
                    | Some n \<Rightarrow> if n \<le> 0 then None else Some n) of
           None \<Rightarrow> Returns (sess, w, [InvalidPortNumber], NoAction)
         | Some n \<Rightarrow>
             Returns (sess\<lparr>stage := 1, vals := v\<lparr>port_num := Some n\<rparr>\<rparr>, w, [AskBaud], NoAction))
      else if stage sess = 1 then
        (case (if txt = [] then Some 115200 else py_int txt) of
           None \<Rightarrow> Returns (sess, w, [InvalidBaud], NoAction)
         | Some n \<Rightarrow>
             Returns (sess\<lparr>stage := 2, vals := v\<lparr>baud := Some n\<rparr>\<rparr>, w, [AskDataBits], NoAction))
      else if stage sess = 2 then
        (case (if txt = [] then Some 8
               else case py_int txt of None \<Rightarrow> None
                    | Some n \<Rightarrow> if n = 7 \<or> n = 8 then Some n else None) of
           None \<Rightarrow> Returns (sess, w, [InvalidDataBits], NoAction)
         | Some n \<Rightarrow>
             Returns (sess\<lparr>stage := 3, vals := v\<lparr>data_bits := Some n\<rparr>\<rparr>, w, [AskStopBits],
                      NoAction))
      else if stage sess = 3 then
        (case (if txt = [] then Some 1
               else case py_int txt of None \<Rightarrow> None
                    | Some n \<Rightarrow> if n = 1 \<or> n = 2 then Some n else None) of
           None \<Rightarrow> Returns (sess, w, [InvalidStopBits], NoAction)
         | Some n \<Rightarrow>
             Returns (sess\<lparr>stage := 4, vals := v\<lparr>stop_bits := Some n\<rparr>\<rparr>, w, [AskParity],
                      NoAction))
      else if stage sess = 4 then
        (case (if utxt = [] then Some (CHR ''N'')
               else if hd utxt = CHR ''O'' \<or> hd utxt = CHR ''E'' \<or> hd utxt = CHR ''N''
                    then Some (hd utxt) else None) of
           None \<Rightarrow> Returns (sess, w, [InvalidParity], NoAction)
         | Some p \<Rightarrow>
             Returns (sess\<lparr>stage := 5, vals := v\<lparr>parity := Some p\<rparr>\<rparr>, w, [AskXonXoff],
                      NoAction))
      else if stage sess = 5 then
        (case yes_no utxt of
           None \<Rightarrow> Returns (sess, w, [InvalidXonXoff], NoAction)
         | Some b \<Rightarrow>
             Returns (sess\<lparr>stage := 6, vals := v\<lparr>xonxoff := Some b\<rparr>\<rparr>, w, [AskRtsCts],
                      NoAction))
      else if stage sess = 6 then
        (case yes_no utxt of
           None \<Rightarrow> Returns (sess, w, [InvalidRtsCts], NoAction)
         | Some b \<Rightarrow> open_bridge nt env (sess\<lparr>vals := v\<lparr>rtscts := Some b\<rparr>\<rparr>) w)
      else Returns (sess, w, [IntroBanner, AskPortNumber], NoAction))"

subsection \<open>The runtime of a bridge\<close>

text \<open>
  \<open>bytes.replace(old, new)\<close> for a pattern \<open>old\<close> that is not empty: from left to right,
  occurrences that do not overlap.
\<close>

function replace_bytes :: "byte list \<Rightarrow> byte list \<Rightarrow> byte list \<Rightarrow> byte list" where
  "replace_bytes old new data =
     (if data = [] \<or> old = [] then data
      else if take (length old) data = old
           then new @ replace_bytes old new (drop (length old) data)
           else hd data # replace_bytes old new (tl data))"
  by pat_completeness auto
termination
  by (relation "measure (\<lambda>(old, new, data). length data)") auto

declare replace_bytes.simps [simp del]

definition CR :: byte where "CR = 0x0D"
definition LF :: byte where "LF = 0x0A"

text \<open>
  \<open>data.replace(b"\r\n", b"\r\n").replace(b"\n", b"\r\n").replace(b"\r", b"\r\n")\<close>, the
  expression of \<open>handle_raw_input\<close> and of \<open>handle_input_runtime\<close>.
\<close>

definition normalize_newlines :: "byte list \<Rightarrow> byte list" where
  "normalize_newlines data =
     replace_bytes [CR] [CR, LF] (replace_bytes [LF] [CR, LF] (replace_bytes [CR, LF] [CR, LF] data))"

text \<open>The session of \<open>create_runtime_session\<close>.\<close>

record runtime_session =
  bridge_serial :: "serial_port option"
  port_name :: string

definition create_runtime_session :: "serial_port \<Rightarrow> string \<Rightarrow> runtime_session" where
  "create_runtime_session bs name = \<lparr>bridge_serial = Some bs, port_name = name\<rparr>"

text \<open>
  \<open>handle_raw_input\<close>, the live path: the hub calls it with the bytes it has just read from
  the local line. \<open>write_ok\<close> tells whether \<open>bs.write\<close> succeeds. The last component is what
  was written to the bridged port.
\<close>

definition handle_raw_input :: "bool \<Rightarrow> runtime_session \<Rightarrow> byte list \<Rightarrow> world
    \<Rightarrow> bool \<times> runtime_session \<times> world \<times> byte list list" where
  "handle_raw_input write_ok sess data w =
     (case bridge_serial sess of
        None \<Rightarrow> (False, sess, w, [])
      | Some bs \<Rightarrow>
          if write_ok then (True, sess, w, [normalize_newlines data])
          else (False, sess\<lparr>bridge_serial := None\<rparr>,
                w\<lparr>closed := insert (ident bs) (closed w)\<rparr>, []))"

text \<open>
  \<open>line_str.encode('utf-8', errors='ignore')\<close>: one byte for a code point below 128, two
  bytes for the others of the range.
\<close>

definition encode_char :: "char \<Rightarrow> byte list" where
  "encode_char c =
     (if (of_char c :: nat) < 128 then [of_nat (of_char c)]
      else [of_nat (192 + (of_char c :: nat) div 64), of_nat (128 + (of_char c :: nat) mod 64)])"

definition encode :: "string \<Rightarrow> byte list" where
  "encode s = concat (map encode_char s)"

text \<open>
  \<open>handle_input_runtime\<close>, the path of a line ended with Enter. On ATH the port is taken
  out of the surrendered set when the name of the bridged serial object is in it.
\<close>

definition handle_input_runtime :: "bool \<Rightarrow> runtime_session \<Rightarrow> string \<Rightarrow> byte list option
    \<Rightarrow> world \<Rightarrow> runtime_session \<times> world \<times> byte list list \<times> action" where
  "handle_input_runtime write_ok sess line_str raw_line w =
     (case bridge_serial sess of
        None \<Rightarrow> (sess, w, [], Menu)
      | Some bs \<Rightarrow>
          let gone = (sess\<lparr>bridge_serial := None\<rparr>,
                      w\<lparr>closed := insert (ident bs) (closed w)\<rparr>, [], Menu)
          in
          if py_upper (py_strip line_str) = ''ATH'' then
            (let w1 = (if port bs \<noteq> [] \<and> SURRENDERED_PORTS w \<noteq> {}
                          \<and> py_upper (port bs) \<in> SURRENDERED_PORTS w
                       then restore (port bs) w else w)
             in (sess\<lparr>bridge_serial := None\<rparr>,
                 w1\<lparr>closed := insert (ident bs) (closed w1)\<rparr>, [], Menu))
          else if line_str = [] then
            (if write_ok then (sess, w, [[CR, LF]], NoAction) else gone)
          else
            (if write_ok
             then (sess, w,
                   [(case raw_line of Some raw \<Rightarrow> normalize_newlines raw
                     | None \<Rightarrow> encode line_str) @ [CR, LF]], NoAction)
             else gone))"

section \<open>Session loop (RETRO\_SERIAL\_HUB.py, bridge\_loop)\<close>

datatype mode =
    MENU | BBS | FILES | TEXT | URL | COMBRIDGE_PROMPT | COMBRIDGE | NOTES | WARGAMES | AI

text \<open>
  The variable \<open>bridge_session\<close> of \<open>bridge_loop\<close> holds the session of the prompts
  while they are asked and the runtime session once the bridge is open.
\<close>

datatype hub_bridge = Prompting prompt_session | Running runtime_session

text \<open>
  The variables of \<open>bridge_loop\<close> which the ATM command reads or writes: the mode, the
  socket of the remote connection, the bridge session, and the session's own serial object.
\<close>

record hub =
  mode :: mode
  tcp_sock :: "nat option"
  bridge_session :: "hub_bridge option"
  ser :: serial_port




text \<open>
  Where the bytes read from the local line go: in bridge runtime to
  \<open>handle_raw_input\<close>, in a connected remote session to the socket (with the search for
  ATH), otherwise into \<open>input_buffer\<close>, from which lines are cut and dispatched.
\<close>

datatype route = ToBridge | ToRemote | ToLines

definition route_input :: "hub \<Rightarrow> route" where
  "route_input h =
     (if mode h = COMBRIDGE \<and> bridge_session h \<noteq> None then ToBridge
      else if mode h = BBS \<and> tcp_sock h \<noteq> None then ToRemote
      else ToLines)"






text \<open>
  The handler of the mode \<open>COMBRIDGE_PROMPT\<close>: each line goes to \<open>handle_input\<close> of the
  bridge module with the session of the prompts, and the mode stays as long as the module
  hands back no action. \<open>prompt_lines\<close> is this for a sequence of lines none of which is
  ATM; it ends with the first action or with the last line.
\<close>

fun prompt_lines :: "bool \<Rightarrow> (string \<Rightarrow> nat \<Rightarrow> serial_port option) \<Rightarrow> prompt_session
    \<Rightarrow> string list \<Rightarrow> world \<Rightarrow> (prompt_session \<times> world \<times> bridge_notice list \<times> action) result" where
  "prompt_lines nt env sess [] w = Returns (sess, w, [], NoAction)"
| "prompt_lines nt env sess (l # ls) w =
     (case handle_input nt env sess (py_strip l) w of
        Raises \<Rightarrow> Raises
      | Returns (sess1, w1, said1, a1) \<Rightarrow>
          if a1 = NoAction then
            (case prompt_lines nt env sess1 ls w1 of
               Raises \<Rightarrow> Raises
             | Returns (sess2, w2, said2, a2) \<Rightarrow> Returns (sess2, w2, said1 @ said2, a2))
          else Returns (sess1, w1, said1, a1))"

section \<open>Port worker (RETRO\_SERIAL\_HUB.py, port\_worker)\<close>

text \<open>\<open>sub in s\<close> for strings.\<close>

fun contains :: "string \<Rightarrow> string \<Rightarrow> bool" where
  "contains sub [] = (sub = [])"
| "contains sub (c # cs) = (take (length sub) (c # cs) = sub \<or> contains sub cs)"

text \<open>
  The test of the handler for \<open>serial.SerialException\<close>:
  \<open>"FileNotFoundError" in str(e) or "cannot find the file" in str(e)\<close>.
\<close>

definition not_present :: "string \<Rightarrow> bool" where
  "not_present msg = (contains ''FileNotFoundError'' msg \<or> contains ''cannot find the file'' msg)"

text \<open>How \<open>bridge_loop\<close> ends: it returns, or raises.\<close>

datatype loop_end = LoopReturned | LoopSerialException string | LoopException

text \<open>
  What happens to the worker, in order. \<open>Open_ok ser others e\<close>: \<open>serial.Serial\<close> gives
  \<open>ser\<close>, the session loop runs while the other threads change the world by \<open>others\<close>,
  and ends with \<open>e\<close>. \<open>Open_serial_exception msg\<close>: \<open>serial.Serial\<close> raises
  \<open>SerialException\<close> with text \<open>msg\<close>. \<open>Open_exception\<close>: it raises something else.
  \<open>Port_returned\<close>: while the worker waits for its surrendered port, a bridge session takes
  the port out of the surrendered set.
\<close>

datatype event =
    Open_ok serial_port "world \<Rightarrow> world" loop_end
  | Open_serial_exception string
  | Open_exception
  | Port_returned

datatype worker_log =
    Listening | NotPresentSkipping | SurrenderedWaiting | ReturnedRetrying
  | SerialErrorRetrying | UnexpectedErrorRetrying

text \<open>
  \<open>Stopped\<close>: \<open>port_worker\<close> has returned. \<open>Alive\<close>: the events are used up and the worker
  is in its loop, about to open the port again. \<open>Waiting\<close>: the worker polls the surrendered
  set and the port has not been returned.
\<close>

datatype worker_status = Stopped | Alive | Waiting

text \<open>
  \<open>port_worker(name, cfg)\<close> with \<open>p = cfg['port']\<close>. The sleeps (5 s before a retry, 1 s
  between two looks at the surrendered set) are left out.
\<close>

fun port_worker :: "string \<Rightarrow> string \<Rightarrow> event list \<Rightarrow> world \<Rightarrow> worker_log list
    \<Rightarrow> worker_status \<times> world \<times> worker_log list"
and on_serial_exception :: "string \<Rightarrow> string \<Rightarrow> string \<Rightarrow> event list \<Rightarrow> world \<Rightarrow> worker_log list
    \<Rightarrow> worker_status \<times> world \<times> worker_log list" where
  "port_worker name p [] w log = (Alive, w, log)"
| "port_worker name p (Open_ok s others LoopReturned # es) w log =
     port_worker name p es (unregister p (others (register name p s w))) (log @ [Listening])"
| "port_worker name p (Open_ok s others (LoopSerialException msg) # es) w log =
     on_serial_exception name p msg es (others (register name p s w)) (log @ [Listening])"
| "port_worker name p (Open_ok s others LoopException # es) w log =
     port_worker name p es (others (register name p s w))
       (log @ [Listening, UnexpectedErrorRetrying])"
| "port_worker name p (Open_serial_exception msg # es) w log =
     on_serial_exception name p msg es w log"
| "port_worker name p (Open_exception # es) w log =
     port_worker name p es w (log @ [UnexpectedErrorRetrying])"
| "port_worker name p (Port_returned # es) w log =
     port_worker name p es (restore p w) log"
| "on_serial_exception name p msg es w log =
     (if not_present msg then (Stopped, w, log @ [NotPresentSkipping])
      else if py_upper p \<in> SURRENDERED_PORTS w then
        (case es of
           Port_returned # es' \<Rightarrow>
             port_worker name p es' (restore p (unregister p w))
               (log @ [SurrenderedWaiting, ReturnedRetrying])
         | _ \<Rightarrow> (Waiting, unregister p w, log @ [SurrenderedWaiting]))
      else port_worker name p es w (log @ [SerialErrorRetrying]))"

subsection \<open>Auxiliary function for the bridge runtime\<close>

text \<open>What the normalisation does to one byte.\<close>

definition newline_image :: "byte \<Rightarrow> byte list" where
  "newline_image b = (if b = CR then [CR, LF] else if b = LF then [CR, LF, LF] else [b])"



section \<open>Properties of the transfer engine\<close>

subsection \<open>Facts about the sender\<close>

lemma wait_receiver_NAK: "wait_receiver start_polls (Some NAK # inp) = (True, inp)"
  by (simp add: start_polls_def numeral_eq_Suc)

lemma wait_ack_ACK: "wait_ack ack_polls pkt (Some ACK # inp) out = (Acked, out, inp)"
  by (simp add: ack_polls_def numeral_eq_Suc)

lemma wait_eot_ACK: "wait_eot eot_polls (Some ACK # inp) out = (True, out)"
  by (simp add: eot_polls_def numeral_eq_Suc)

lemma send_blocks_acked:
  "send_blocks bn fl (replicate (length (frames_from bn fl)) (Some ACK) @ Some ACK # rest) out
     = (Completed, out @ map Raw (frames_from bn fl) @ [Raw [EOT], Msg TransferComplete])"
proof (induction bn fl arbitrary: out rule: frames_from.induct)
  case (1 bn fl)
  show ?case
  proof (cases "fl = []")
    case True
    then show ?thesis
      by (simp add: send_blocks.simps [of bn "[]"] frames_from.simps [of bn "[]"] wait_eot_ACK)
  next
    case False
    then show ?thesis
      using "1.IH" [OF False]
      by (subst send_blocks.simps, subst (1 2) frames_from.simps)
         (simp add: wait_ack_ACK Let_def)
  qed
qed

lemma nblocks_Nil: "nblocks [] = 0"
  by (simp add: nblocks_def)

lemma nblocks_drop: "fl \<noteq> [] \<Longrightarrow> nblocks fl = Suc (nblocks (drop 128 fl))"
proof -
  assume "fl \<noteq> []"
  then have pos: "Suc 0 \<le> length fl" by (simp add: Suc_le_eq)
  show ?thesis
  proof (cases "128 \<le> length fl")
    case True
    then have "length fl + 127 = (length fl - 128 + 127) + 128" by simp
    then have "(length fl + 127) div 128 = (length fl - 128 + 127 + 128) div 128"
      by simp
    also have "\<dots> = Suc ((length fl - 128 + 127) div 128)"
      by simp
    finally show ?thesis by (simp add: nblocks_def)
  next
    case False
    have "(length fl + 127) div 128 = 1"
    proof (rule div_nat_eqI)
      show "128 * 1 \<le> length fl + 127" using pos by simp
      show "length fl + 127 < 128 * Suc 1" using False by simp
    qed
    then show ?thesis using False by (simp add: nblocks_def)
  qed
qed

lemma length_frames_from: "length (frames_from bn fl) = nblocks fl"
proof (induction bn fl rule: frames_from.induct)
  case (1 bn fl)
  show ?case
  proof (cases "fl = []")
    case True
    then show ?thesis by (simp add: frames_from.simps [of bn "[]"] nblocks_Nil)
  next
    case False
    then show ?thesis using "1.IH" [OF False] nblocks_drop [OF False]
      by (subst frames_from.simps) simp
  qed
qed

lemma packet_mod: "packet s (bn mod 256) c = packet s bn c"
  by (simp add: packet_def)

lemma frames_from_index:
  "frames_from bn fl
     = map (\<lambda>i. packet SOH ((bn + i) mod 256) (pad_chunk 128 (take 128 (drop (128 * i) fl))))
         [0..<nblocks fl]"
proof (induction bn fl rule: frames_from.induct)
  case (1 bn fl)
  show ?case
  proof (cases "fl = []")
    case True
    then show ?thesis by (simp add: frames_from.simps [of bn "[]"] nblocks_Nil)
  next
    case False
    have shift: "[0..<Suc n] = 0 # map Suc [0..<n]" for n
      by (simp add: upt_conv_Cons map_Suc_upt del: upt_Suc)
    have idx: "(Suc bn mod 256 + i) mod 256 = (bn + Suc i) mod 256" for i
      by (simp add: mod_add_left_eq)
    have dd: "drop (128 * i) (drop 128 fl) = drop (128 * Suc i) fl" for i
      by (simp add: add.commute)
    have hd0: "packet SOH ((bn + 0) mod 256) c = packet SOH bn c" for c
      by (simp add: packet_mod)
    have "frames_from bn fl
            = packet SOH bn (pad_chunk 128 (take 128 fl))
                # frames_from (Suc bn mod 256) (drop 128 fl)"
      using False by (subst frames_from.simps) simp
    also have "frames_from (Suc bn mod 256) (drop 128 fl)
            = map (\<lambda>i. packet SOH ((bn + Suc i) mod 256)
                    (pad_chunk 128 (take 128 (drop (128 * Suc i) fl))))
                [0..<nblocks (drop 128 fl)]"
      using "1.IH" [OF False] by (simp only: idx dd Suc_eq_plus1 [symmetric])
    finally show ?thesis
      by (simp only: nblocks_drop [OF False] shift list.map map_map comp_def hd0
            mult_0_right drop_0)
  qed
qed

subsection \<open>Facts about the receiver\<close>

lemma unat_byte_of_nat: "n < 256 \<Longrightarrow> unat (of_nat n :: byte) = n"
  by (simp add: unsigned_of_nat take_bit_eq_mod)

lemma unat_byte_complement: "unat (255 - word_of_nat (bn mod 256) :: byte) = 255 - bn mod 256"
proof -
  have "bn mod 256 \<le> 255" by simp
  then have "(of_nat (255 - bn mod 256) :: byte) = 255 - word_of_nat (bn mod 256)"
    by (simp only: of_nat_diff) simp
  moreover have "unat (of_nat (255 - bn mod 256) :: byte) = 255 - bn mod 256"
    by (rule unat_byte_of_nat) simp
  ultimately show ?thesis by simp
qed

lemma checksum_lt: "checksum xs < 256"
  by (simp add: checksum_def)

lemma length_pad_chunk: "length xs \<le> n \<Longrightarrow> length (pad_chunk n xs) = n"
  by (simp add: pad_chunk_def)

lemma recv_frame:
  assumes "length chunk = 128"
  shows "recv_loop (packet SOH bn chunk # rest) [] bn received out
           = recv_loop rest [] ((bn + 1) mod 256) (received @ chunk) (out @ [Raw [ACK]])"
  using assms
  by (subst recv_loop.simps)
     (simp add: packet_def Let_def unat_byte_of_nat unat_byte_complement checksum_lt
        nth_append butlast_append SOH_def)

lemma recv_eot:
  "recv_loop ([EOT] # rest) [] bn received out
     = Some (UploadComplete (strip_filler received), out @ [Raw [ACK], Msg UploadCompleteNotice])"
  by (subst recv_loop.simps) (simp add: Let_def SOH_def EOT_def)

lemma padded_Nil: "padded [] = []"
  by (simp add: padded_def nblocks_Nil)

lemma padded_step:
  assumes "fl \<noteq> []"
  shows "pad_chunk 128 (take 128 fl) @ padded (drop 128 fl) = padded fl"
proof (cases "128 \<le> length fl")
  case True
  then have "pad_chunk 128 (take 128 fl) = take 128 fl" by (simp add: pad_chunk_def)
  moreover have "128 * nblocks (drop 128 fl) - (length fl - 128) = 128 * nblocks fl - length fl"
    using True by (simp add: nblocks_drop [OF assms])
  ultimately show ?thesis by (simp add: padded_def)
next
  case False
  then have d: "drop 128 fl = []" by simp
  have n: "nblocks fl = 1" using nblocks_drop [OF assms] by (simp add: d nblocks_Nil)
  show ?thesis using False by (simp add: d n nblocks_Nil padded_def pad_chunk_def)
qed

lemma recv_frames:
  "bn < 256 \<Longrightarrow>
   recv_loop (frames_from bn fl @ rest) [] bn received out
     = recv_loop rest [] ((bn + nblocks fl) mod 256) (received @ padded fl)
         (out @ replicate (nblocks fl) (Raw [ACK]))"
proof (induction bn fl arbitrary: received out rule: frames_from.induct)
  case (1 bn fl)
  show ?case
  proof (cases "fl = []")
    case True
    then show ?thesis using "1.prems"
      by (simp add: frames_from.simps [of bn "[]"] nblocks_Nil padded_Nil)
  next
    case False
    have len: "length (pad_chunk 128 (take 128 fl)) = 128"
      by (rule length_pad_chunk) simp
    have lt: "(bn + 1) mod 256 < 256" by simp
    have "recv_loop (frames_from bn fl @ rest) [] bn received out
            = recv_loop (frames_from ((bn + 1) mod 256) (drop 128 fl) @ rest) []
                ((bn + 1) mod 256) (received @ pad_chunk 128 (take 128 fl)) (out @ [Raw [ACK]])"
      using False by (subst frames_from.simps) (simp add: recv_frame [OF len])
    also have "\<dots> = recv_loop rest [] (((bn + 1) mod 256 + nblocks (drop 128 fl)) mod 256)
                  ((received @ pad_chunk 128 (take 128 fl)) @ padded (drop 128 fl))
                  ((out @ [Raw [ACK]]) @ replicate (nblocks (drop 128 fl)) (Raw [ACK]))"
      by (rule "1.IH" [OF False lt])
    finally show ?thesis
      by (simp add: padded_step [OF False] nblocks_drop [OF False] mod_add_left_eq)
  qed
qed

lemma strip_filler_snoc: "strip_filler (ys @ [0x1A]) = strip_filler ys"
  by (subst strip_filler.simps) simp

lemma strip_filler_replicate: "strip_filler (xs @ replicate k 0x1A) = strip_filler xs"
proof (induction k)
  case 0 show ?case by simp
next
  case (Suc k)
  have "xs @ replicate (Suc k) 0x1A = (xs @ replicate k 0x1A) @ [0x1A]"
    by (simp add: replicate_append_same)
  then show ?case using Suc by (simp only: strip_filler_snoc)
qed

lemma strip_filler_id: "xs = [] \<or> last xs \<noteq> 0x1A \<Longrightarrow> strip_filler xs = xs"
  by (subst strip_filler.simps) auto

lemma strip_filler_last: "strip_filler xs = [] \<or> last (strip_filler xs) \<noteq> 0x1A"
proof (induction xs rule: strip_filler.induct)
  case (1 received)
  show ?case
  proof (cases "received \<noteq> [] \<and> last received = 0x1A")
    case True
    then have "strip_filler received = strip_filler (butlast received)"
      by (subst strip_filler.simps) simp
    then show ?thesis using 1 True by simp
  next
    case False
    then have "strip_filler received = received"
      by (subst strip_filler.simps) auto
    then show ?thesis using False by auto
  qed
qed

lemma xmodem_send_all_acked:
  "xmodem_send (Some fl) (all_acked fl)
     = (Completed, [Msg XmodemSendBanner, Msg WaitingForReceiver]
          @ map Raw (frames_from 1 fl) @ [Raw [EOT], Msg TransferComplete])"
proof -
  have "all_acked fl = Some NAK # (replicate (length (frames_from 1 fl)) (Some ACK) @ Some ACK # [])"
    by (simp add: all_acked_def length_frames_from)
  then show ?thesis
    by (simp only: xmodem_send_def wait_receiver_NAK send_blocks_acked prod.case option.case
          bool.case)
qed

lemma raw_writes_append: "raw_writes (xs @ ys) = raw_writes xs @ raw_writes ys"
  by (induction xs rule: raw_writes.induct) simp_all

lemma raw_writes_map_Raw: "raw_writes (map Raw fs) = fs"
  by (induction fs) simp_all

lemma raw_writes_all_acked:
  "raw_writes (snd (xmodem_send (Some fl) (all_acked fl))) = frames_from 1 fl @ [[EOT]]"
  by (simp add: xmodem_send_all_acked raw_writes_append raw_writes_map_Raw)

lemma pad_chunk_spec:
  assumes "i < nblocks fl"
  shows "pad_chunk 128 (take 128 (drop (128 * i) fl)) = spec_chunk fl i"
proof (cases "Suc i = nblocks fl")
  case True
  then show ?thesis by (simp add: spec_chunk_def pad_chunk_def Let_def)
next
  case False
  then have "Suc (Suc i) \<le> (length fl + 127) div 128" using assms by (simp add: nblocks_def)
  then have "Suc (Suc i) * 128 \<le> length fl + 127"
    by (simp only: less_eq_div_iff_mult_less_eq [symmetric] zero_less_numeral)
  then have "128 \<le> length fl - 128 * i" by simp
  then show ?thesis using False by (simp add: spec_chunk_def pad_chunk_def Let_def)
qed

lemma frames_from_spec: "frames_from 1 fl = spec_frames fl"
  unfolding frames_from_index spec_frames_def
  by (rule map_cong) (simp_all add: pad_chunk_spec packet_def spec_frame_def checksum_def)

lemma roundtrip:
  "xmodem_receive (raw_writes (snd (xmodem_send (Some fl) (all_acked fl))))
     = Some (UploadComplete (strip_filler fl),
             [Msg XmodemReceiveBanner, Raw [NAK]] @ replicate (nblocks fl) (Raw [ACK])
               @ [Raw [ACK], Msg UploadCompleteNotice])"
  by (simp add: raw_writes_all_acked xmodem_receive_def recv_frames recv_eot padded_def
        strip_filler_replicate)

lemma arrivals_split:
  "(case arrivals of [] \<Rightarrow> [] | a # later \<Rightarrow> a) @ concat (tl arrivals) = concat arrivals"
  by (cases arrivals) simp_all

lemma recv_post_mono:
  assumes "recv_post rest buf' r"
    and "set buf' \<subseteq> set (buf @ (case arrivals of [] \<Rightarrow> [] | a # later \<Rightarrow> a))"
    and "rest = tl arrivals"
  shows "recv_post arrivals buf r"
proof -
  have "set (buf' @ concat rest) \<subseteq> set ((buf @ (case arrivals of [] \<Rightarrow> [] | a # later \<Rightarrow> a)) @ concat (tl arrivals))"
    using assms(2,3) by auto
  then have "set (buf' @ concat rest) \<subseteq> set (buf @ concat arrivals)"
    by (simp only: append_assoc arrivals_split)
  then show ?thesis using assms(1) by (auto simp: recv_post_def split: recv_result.splits)
qed

lemma recv_loop_post:
  assumes "recv_loop arrivals buf bn received out = Some y"
  shows "recv_post arrivals buf (fst y)"
proof (rule recv_loop.raw_induct
    [where P = "\<lambda>arrivals buf bn received out y. recv_post arrivals buf (fst y)", OF _ assms],
    goal_cases)
  case (1 rl arrivals buf block_num received out y)
  define buf1 where "buf1 = buf @ (case arrivals of [] \<Rightarrow> [] | a # later \<Rightarrow> a)"
  have sub_tl: "set (tl buf1) \<subseteq> set buf1" by (cases buf1) auto
  have sub_drop: "set (drop 131 (tl buf1)) \<subseteq> set buf1"
    using sub_tl set_drop_subset [of 131 "tl buf1"] by blast
  have mem: "hd buf1 \<in> set (buf @ concat arrivals)" if "buf1 \<noteq> []"
  proof -
    from that have "hd buf1 \<in> set (buf1 @ concat (tl arrivals))" by simp
    then show ?thesis unfolding buf1_def by (simp only: append_assoc arrivals_split)
  qed
  have step: "recv_post arrivals buf (fst y)"
    if "rl (tl arrivals) buf' b r o' = Some y" and "set buf' \<subseteq> set buf1" for buf' b r o'
    using 1(1) [OF that(1)] that(2) unfolding buf1_def
    by (rule recv_post_mono) simp
  from 1(2)
  show ?case
    unfolding Let_def buf1_def [symmetric]
    using step sub_tl sub_drop mem strip_filler_last [of received]
    by (auto split: if_splits simp: recv_post_def)
qed

lemma recv_loop_silent:
  assumes "EOT \<notin> set (buf @ concat arrivals)" and "CAN \<notin> set (buf @ concat arrivals)"
  shows "recv_loop arrivals buf bn received out = None"
proof (cases "recv_loop arrivals buf bn received out")
  case None
  then show ?thesis .
next
  case (Some y)
  from recv_loop_post [OF Some] assms show ?thesis
    by (simp add: recv_post_def split: recv_result.splits)
qed

lemma wait_ack_forever_post:
  assumes "wait_ack_forever inp = Some y"
  shows "Some ACK \<in> set inp"
proof (rule wait_ack_forever.raw_induct [where P = "\<lambda>inp y. Some ACK \<in> set inp", OF _ assms],
    goal_cases)
  case (1 waf inp y)
  from 1(2) show ?case
    by (auto split: list.splits option.splits if_splits dest!: 1(1))
qed

lemma wait_ack_forever_silent: "Some ACK \<notin> set inp \<Longrightarrow> wait_ack_forever inp = None"
  using wait_ack_forever_post by (cases "wait_ack_forever inp") auto

lemma wait_ymodem_receiver_NAK: "wait_ymodem_receiver start_polls (Some NAK # inp) = (True, inp)"
  by (simp add: start_polls_def numeral_eq_Suc)

text \<open>
  Claim C8. The claim says that every blocking stage of a transfer gives up after a deadline.
  The loop of \<open>xmodem_receive\<close> and the two waits for ACK in \<open>ymodem_send\<close> have none:
  on a line that stays silent (or carries no EOT and no CAN), \<open>xmodem_receive\<close> never
  returns, and \<open>ymodem_send\<close> never returns when the receiver asks for the transfer and
  then stays silent, or acknowledges the header and then does not acknowledge EOT.
\<close>

theorem transfer_waits_without_deadline:
  "xmodem_receive [] = None
   \<and> xmodem_receive [[0x41], [0x42]] = None
   \<and> ymodem_send [0x41] [] [Some NAK] = None
   \<and> ymodem_send [0x41] [] [Some NAK, Some ACK] = None"
proof -
  have a: "xmodem_receive [] = None"
    unfolding xmodem_receive_def by (rule recv_loop_silent) simp_all
  have b: "xmodem_receive [[0x41], [0x42]] = None"
    unfolding xmodem_receive_def by (rule recv_loop_silent) (simp_all add: EOT_def CAN_def)
  have hdr: "length ([0x41] @ [0] @ decimal (length ([] :: byte list))) = 3"
    by (simp add: decimal.simps)
  have c: "ymodem_send [0x41] [] [Some NAK] = None"
    using hdr
    by (simp add: ymodem_send_def Let_def wait_ymodem_receiver_NAK wait_ack_forever_silent)
  have ack: "wait_ack_forever [Some ACK] = Some []"
    by (subst wait_ack_forever.simps) simp
  have d: "ymodem_send [0x41] [] [Some NAK, Some ACK] = None"
    using hdr
    by (simp add: ymodem_send_def Let_def wait_ymodem_receiver_NAK ack ymodem_blocks.simps
          wait_ack_forever_silent)
  from a b c d show ?thesis by blast
qed

lemma length_spec_chunk: "i < nblocks fl \<Longrightarrow> length (spec_chunk fl i) = 128"
  using pad_chunk_spec [of i fl] length_pad_chunk [of "take 128 (drop (128 * i) fl)" 128]
  by simp

lemma length_spec_frame: "i < nblocks fl \<Longrightarrow> length (spec_frame fl i) = 132"
  by (simp add: spec_frame_def length_spec_chunk)

lemma list_all_spec_frames: "list_all (\<lambda>fr. length fr = 132) (spec_frames fl)"
  by (simp add: spec_frames_def list_all_iff length_spec_frame)

lemma frames_from_spec_Suc: "frames_from (Suc 0) fl = spec_frames fl"
  using frames_from_spec [of fl] by simp

lemma length_spec_frames: "length (spec_frames fl) = nblocks fl"
  by (simp add: spec_frames_def)

lemma nth_raw_writes_all_acked:
  assumes "i < nblocks fl"
  shows "raw_writes (snd (xmodem_send (Some fl) (all_acked fl))) ! i = spec_frame fl i"
  using assms
  by (simp add: raw_writes_all_acked frames_from_spec_Suc nth_append length_spec_frames)
     (simp add: spec_frames_def)

text \<open>
  Claim C4. When the receiver asks for the transfer and acknowledges every block,
  \<open>xmodem_send\<close> writes, in order, one frame of 132 bytes for each 128-byte chunk of the
  file, as the specification describes them (SOH, block number mod 256, 255 minus that, the
  128 data bytes with \<open>0x1A\<close> filling up the final chunk only, the sum of the data bytes
  mod 256), then EOT.
\<close>

theorem xmodem_send_frames:
  "xmodem_send (Some fl) (all_acked fl)
     = (Completed, [Msg XmodemSendBanner, Msg WaitingForReceiver]
          @ map Raw (spec_frames fl) @ [Raw [EOT], Msg TransferComplete])
   \<and> list_all (\<lambda>fr. length fr = 132) (spec_frames fl)"
  by (simp add: xmodem_send_all_acked frames_from_spec_Suc list_all_spec_frames)

text \<open>The two-byte file \<open>AB\<close>: one frame, 126 filler bytes, checksum \<open>0x4F\<close>.\<close>

theorem xmodem_send_frames_witness:
  "xmodem_send (Some [0x41, 0x42]) [Some NAK, Some ACK, Some ACK]
     = (Completed, [Msg XmodemSendBanner, Msg WaitingForReceiver,
          Raw ([0x01, 0x01, 0xFE, 0x41, 0x42] @ replicate 126 0x1A @ [0x4F]),
          Raw [0x04], Msg TransferComplete])"
  using xmodem_send_frames [of "[0x41, 0x42]"]
  by (simp add: all_acked_def nblocks_def spec_frames_def spec_frame_def spec_chunk_def
        SOH_def EOT_def sum_list_replicate)

text \<open>
  Claim C6 says that the block number skips 0 when it wraps. It does not: in the transfer of
  a file of 256 blocks the block after number 255 carries number 0.
\<close>

theorem block_number_wraps_to_zero_counterexample:
  "(raw_writes (snd (xmodem_send (Some (replicate 32768 0x41))
        (all_acked (replicate 32768 0x41)))) ! 254) ! 1 = 255
   \<and> (raw_writes (snd (xmodem_send (Some (replicate 32768 0x41))
        (all_acked (replicate 32768 0x41)))) ! 255) ! 1 = 0"
proof -
  have n: "nblocks (replicate 32768 (0x41 :: byte)) = 256" by (simp add: nblocks_def)
  show ?thesis
    by (simp add: nth_raw_writes_all_acked n spec_frame_def)
qed

text \<open>
  Claim C6, amended: an ACK advances the block number by one modulo 256, so that block
  \<open>i\<close> (counted from 0) of an acknowledged transfer carries \<open>(i + 1) mod 256\<close> and its
  complement; after number 255 comes number 0.
\<close>

theorem block_number_mod_256:
  "i < nblocks fl \<Longrightarrow>
   (raw_writes (snd (xmodem_send (Some fl) (all_acked fl))) ! i) ! 1 = of_nat (Suc i mod 256)
   \<and> (raw_writes (snd (xmodem_send (Some fl) (all_acked fl))) ! i) ! 2
        = of_nat (255 - Suc i mod 256)"
  by (simp add: nth_raw_writes_all_acked spec_frame_def)

text \<open>The 256th block of a file of 32768 bytes.\<close>

theorem block_number_mod_256_witness:
  "255 < nblocks (replicate 32768 0x41)
   \<and> (raw_writes (snd (xmodem_send (Some (replicate 32768 0x41))
        (all_acked (replicate 32768 0x41)))) ! 255) ! 1 = 0
   \<and> (raw_writes (snd (xmodem_send (Some (replicate 32768 0x41))
        (all_acked (replicate 32768 0x41)))) ! 255) ! 2 = 255"
proof -
  have n: "255 < nblocks (replicate 32768 (0x41 :: byte))" by (simp add: nblocks_def)
  from block_number_mod_256 [OF n] n show ?thesis by simp
qed

lemma strip_filler_decomp:
  "xs = strip_filler xs @ replicate (length xs - length (strip_filler xs)) 0x1A"
proof (induction xs rule: strip_filler.induct)
  case (1 received)
  show ?case
  proof (cases "received \<noteq> [] \<and> last received = 0x1A")
    case True
    then have s: "strip_filler received = strip_filler (butlast received)"
      by (subst strip_filler.simps) simp
    from True have r: "received = butlast received @ [0x1A]"
      by (metis append_butlast_last_id)
    have le: "length (strip_filler (butlast received)) \<le> length (butlast received)"
      using "1.IH" [OF True]
      by (metis le_add1 length_append)
    have "received = (strip_filler (butlast received)
            @ replicate (length (butlast received) - length (strip_filler (butlast received))) 0x1A)
            @ [0x1A]"
      using "1.IH" [OF True] r by simp
    also have "\<dots> = strip_filler (butlast received)
            @ replicate (Suc (length (butlast received) - length (strip_filler (butlast received)))) 0x1A"
      by (simp add: replicate_append_same)
    also have "Suc (length (butlast received) - length (strip_filler (butlast received)))
                 = length received - length (strip_filler (butlast received))"
      using le True by (cases received rule: rev_cases) auto
    finally show ?thesis by (simp only: s)
  next
    case False
    then show ?thesis by (subst (1 2) strip_filler.simps) auto
  qed
qed

lemma strip_filler_fixed: "strip_filler xs = xs \<longleftrightarrow> xs = [] \<or> last xs \<noteq> 0x1A"
  using strip_filler_id [of xs] strip_filler_last [of xs] by auto

lemma strip_filler_single: "strip_filler [0x1A] = []"
  by (subst strip_filler.simps, simp, subst strip_filler.simps, simp)

text \<open>
  Claim C5 says that the receiver commits the original bytes of every file. It does not when
  the file ends with \<open>0x1A\<close>: for the file of the single byte \<open>0x1A\<close> the receiver,
  fed with what the sender writes, commits the empty file.
\<close>

theorem xmodem_roundtrip_counterexample:
  "xmodem_receive (raw_writes (snd (xmodem_send (Some [0x1A]) (all_acked [0x1A]))))
     = Some (UploadComplete [],
             [Msg XmodemReceiveBanner, Raw [NAK], Raw [ACK], Raw [ACK], Msg UploadCompleteNotice])"
  by (simp add: roundtrip strip_filler_single nblocks_def)

lemma frames_150:
  assumes "length fl = 150"
  shows "frames_from (Suc 0) fl
           = [packet SOH 1 (take 128 fl), packet SOH 2 (drop 128 fl @ replicate 106 0x1A)]"
proof -
  have ne: "fl \<noteq> []" "drop 128 fl \<noteq> []" using assms by auto
  have e: "drop 128 (drop 128 fl) = []" using assms by simp
  show ?thesis
    using assms
    by (subst frames_from.simps, simp add: ne, subst frames_from.simps, simp add: ne,
        subst frames_from.simps, simp add: e pad_chunk_def numeral_2_eq_2 [symmetric])
qed

text \<open>
  Claim C5, amended: the receiver, fed with the frames and the EOT which the sender writes
  when every block is acknowledged, acknowledges each of them and commits the file without
  the \<open>0x1A\<close> bytes at its end: the file is what is committed followed by \<open>0x1A\<close> bytes
  only, and what is committed does not end with \<open>0x1A\<close>. This is the original file exactly
  when the file is empty or does not end with \<open>0x1A\<close>. A file of 150 bytes goes out in
  exactly two blocks, block 1 with bytes 0 to 127 and block 2 with bytes 128 to 149 and 106
  bytes \<open>0x1A\<close>.
\<close>

theorem xmodem_roundtrip:
  "xmodem_receive (raw_writes (snd (xmodem_send (Some fl) (all_acked fl))))
     = Some (UploadComplete (strip_filler fl),
             [Msg XmodemReceiveBanner, Raw [NAK]] @ replicate (nblocks fl) (Raw [ACK])
               @ [Raw [ACK], Msg UploadCompleteNotice])
   \<and> fl = strip_filler fl @ replicate (length fl - length (strip_filler fl)) 0x1A
   \<and> (strip_filler fl = [] \<or> last (strip_filler fl) \<noteq> 0x1A)
   \<and> (strip_filler fl = fl \<longleftrightarrow> fl = [] \<or> last fl \<noteq> 0x1A)
   \<and> (length fl = 150 \<longrightarrow>
        raw_writes (snd (xmodem_send (Some fl) (all_acked fl)))
          = [packet SOH 1 (take 128 fl), packet SOH 2 (drop 128 fl @ replicate 106 0x1A),
             [EOT]])"
  using roundtrip [of fl] strip_filler_fixed [of fl] strip_filler_decomp [of fl]
    strip_filler_last [of fl]
  by (auto simp: raw_writes_all_acked frames_150)

text \<open>The file of 150 bytes \<open>A\<close>.\<close>

theorem xmodem_roundtrip_witness:
  "xmodem_receive (raw_writes (snd (xmodem_send (Some (replicate 150 0x41))
        (all_acked (replicate 150 0x41)))))
     = Some (UploadComplete (replicate 150 0x41),
             [Msg XmodemReceiveBanner, Raw [NAK], Raw [ACK], Raw [ACK], Raw [ACK],
              Msg UploadCompleteNotice])
   \<and> raw_writes (snd (xmodem_send (Some (replicate 150 0x41)) (all_acked (replicate 150 0x41))))
       = [packet SOH 1 (replicate 128 0x41),
          packet SOH 2 (replicate 22 0x41 @ replicate 106 0x1A), [EOT]]"
proof -
  let ?f = "replicate 150 (0x41 :: byte)"
  have n: "nblocks ?f = 2" by (simp add: nblocks_def)
  have r: "replicate 2 (Raw [ACK]) = [Raw [ACK], Raw [ACK]]"
    by (simp add: numeral_2_eq_2)
  have l: "?f = [] \<or> last ?f \<noteq> 0x1A" by simp
  have len: "length ?f = 150" by simp
  note rt = xmodem_roundtrip [of ?f]
  from rt l have s: "strip_filler ?f = ?f" by blast
  from rt have "xmodem_receive (raw_writes (snd (xmodem_send (Some ?f) (all_acked ?f))))
     = Some (UploadComplete (strip_filler ?f),
             [Msg XmodemReceiveBanner, Raw [NAK]] @ replicate (nblocks ?f) (Raw [ACK])
               @ [Raw [ACK], Msg UploadCompleteNotice])"
    by blast
  then have A: "xmodem_receive (raw_writes (snd (xmodem_send (Some ?f) (all_acked ?f))))
     = Some (UploadComplete ?f,
             [Msg XmodemReceiveBanner, Raw [NAK], Raw [ACK], Raw [ACK], Raw [ACK],
              Msg UploadCompleteNotice])"
    by (simp only: s n r append_Cons append_Nil)
  from rt len have "raw_writes (snd (xmodem_send (Some ?f) (all_acked ?f)))
          = [packet SOH 1 (take 128 ?f), packet SOH 2 (drop 128 ?f @ replicate 106 0x1A), [EOT]]"
    by blast
  then have W: "raw_writes (snd (xmodem_send (Some ?f) (all_acked ?f)))
       = [packet SOH 1 (replicate 128 0x41),
          packet SOH 2 (replicate 22 0x41 @ replicate 106 0x1A), [EOT]]"
    by simp
  show ?thesis by (rule conjI [OF A W])
qed













section \<open>Properties of the bridge runtime\<close>

lemma replace_bytes_Nil: "replace_bytes old new [] = []"
  by (subst replace_bytes.simps) simp

lemma replace_bytes_single:
  "replace_bytes [a] new xs = concat (map (\<lambda>x. if x = a then new else [x]) xs)"
proof (induction xs)
  case Nil
  show ?case by (simp add: replace_bytes_Nil)
next
  case (Cons x xs)
  then show ?case by (subst replace_bytes.simps) simp
qed

lemma replace_bytes_eq: "new = old \<Longrightarrow> replace_bytes old new xs = xs"
proof (induction old new xs rule: replace_bytes.induct)
  case (1 old new xs)
  show ?case
  proof (cases "xs = [] \<or> old = []")
    case True
    then show ?thesis by (subst replace_bytes.simps) simp
  next
    case False
    show ?thesis
    proof (cases "take (length old) xs = old")
      case True
      have "replace_bytes old new xs = new @ replace_bytes old new (drop (length old) xs)"
        using False True by (subst replace_bytes.simps) simp
      also have "\<dots> = take (length old) xs @ drop (length old) xs"
        using "1.IH"(1) [OF False True "1.prems"] True "1.prems" by simp
      finally show ?thesis by simp
    next
      case nt: False
      have "replace_bytes old new xs = hd xs # replace_bytes old new (tl xs)"
        using False nt by (subst replace_bytes.simps) simp
      then show ?thesis using "1.IH"(2) [OF False nt "1.prems"] False by simp
    qed
  qed
qed

lemma replace_bytes_same: "replace_bytes old old xs = xs"
  by (rule replace_bytes_eq) simp

lemma normalize_newlines_bytewise: "normalize_newlines xs = concat (map newline_image xs)"
proof -
  have "concat (map (\<lambda>x. if x = CR then [CR, LF] else [x])
          (concat (map (\<lambda>x. if x = LF then [CR, LF] else [x]) ys)))
        = concat (map newline_image ys)" for ys
    by (induction ys) (auto simp: newline_image_def CR_def LF_def)
  then show ?thesis
    by (simp add: normalize_newlines_def replace_bytes_same replace_bytes_single)
qed

lemma normalize_newlines_filter:
  "filter (\<lambda>b. b \<noteq> CR \<and> b \<noteq> LF) (normalize_newlines xs) = filter (\<lambda>b. b \<noteq> CR \<and> b \<noteq> LF) xs"
  unfolding normalize_newlines_bytewise
  by (induction xs) (auto simp: newline_image_def)

lemma normalize_newlines_plain:
  "CR \<notin> set xs \<Longrightarrow> LF \<notin> set xs \<Longrightarrow> normalize_newlines xs = xs"
  unfolding normalize_newlines_bytewise
  by (induction xs) (auto simp: newline_image_def)

lemma py_strip_no_break_space: "py_upper (py_strip (CHR 0xA0 # ''ath'')) = ''ATH''"
  by (simp add: py_strip_def is_space_def py_upper_def upper_char_def char_of_def bit_iff_odd)

text \<open>
  Claim C9 says that the live path forwards every byte sequence unmodified. It does not:
  \<open>handle_raw_input\<close> applies the same replacements as the line path, and a lone carriage
  return read from the local line is forwarded as carriage return, line feed.
\<close>

theorem live_passthrough_counterexample:
  "handle_raw_input True (create_runtime_session \<lparr>ident = 7, port = ''COM3''\<rparr> ''COM3'')
      [0x0D] empty_world
     = (True, create_runtime_session \<lparr>ident = 7, port = ''COM3''\<rparr> ''COM3'', empty_world,
        [[0x0D, 0x0A]])"
  by (simp add: handle_raw_input_def create_runtime_session_def normalize_newlines_bytewise
        newline_image_def CR_def LF_def)

text \<open>
  Claim C9, amended: in bridge runtime, \<open>handle_raw_input\<close> forwards what was read from
  the local line after the newline normalisation, which is the one of the line path
  (\<open>handle_input_runtime\<close>, which also appends CR LF); the bytes other than CR and LF reach
  the bridged port unchanged and in order, and a sequence without CR and LF is forwarded
  byte for byte.
\<close>

theorem live_passthrough:
  "bridge_serial sess = Some bs \<Longrightarrow>
   handle_raw_input True sess data w = (True, sess, w, [normalize_newlines data])
   \<and> filter (\<lambda>b. b \<noteq> CR \<and> b \<noteq> LF) (normalize_newlines data)
       = filter (\<lambda>b. b \<noteq> CR \<and> b \<noteq> LF) data
   \<and> (CR \<notin> set data \<and> LF \<notin> set data \<longrightarrow> normalize_newlines data = data)
   \<and> (line_str \<noteq> [] \<and> py_upper (py_strip line_str) \<noteq> ''ATH'' \<longrightarrow>
        handle_input_runtime True sess line_str (Some raw) w
          = (sess, w, [normalize_newlines raw @ [CR, LF]], NoAction))"
  by (simp add: handle_raw_input_def handle_input_runtime_def normalize_newlines_filter
        normalize_newlines_plain Let_def)

text \<open>The bytes \<open>ATZ\<close> on the live path and as a line.\<close>

theorem live_passthrough_witness:
  "handle_raw_input True (create_runtime_session \<lparr>ident = 7, port = ''COM3''\<rparr> ''COM3'')
      [0x41, 0x54, 0x5A] empty_world
     = (True, create_runtime_session \<lparr>ident = 7, port = ''COM3''\<rparr> ''COM3'', empty_world,
        [[0x41, 0x54, 0x5A]])
   \<and> handle_input_runtime True (create_runtime_session \<lparr>ident = 7, port = ''COM3''\<rparr> ''COM3'')
        ''ATZ'' (Some [0x41, 0x54, 0x5A]) empty_world
     = (create_runtime_session \<lparr>ident = 7, port = ''COM3''\<rparr> ''COM3'', empty_world,
        [[0x41, 0x54, 0x5A, 0x0D, 0x0A]], NoAction)"
proof -
  let ?s = "create_runtime_session \<lparr>ident = 7, port = ''COM3''\<rparr> ''COM3''"
  let ?d = "[0x41, 0x54, 0x5A] :: byte list"
  have b: "bridge_serial ?s = Some \<lparr>ident = 7, port = ''COM3''\<rparr>"
    by (simp add: create_runtime_session_def)
  have p: "CR \<notin> set ?d \<and> LF \<notin> set ?d" by (simp add: CR_def LF_def)
  have l: "''ATZ'' \<noteq> [] \<and> py_upper (py_strip ''ATZ'') \<noteq> ''ATH''"
    by (simp add: py_upper_def py_strip_def is_space_def upper_char_def)
  note t = live_passthrough [OF b, of ?d empty_world "''ATZ''" ?d]
  from t p have n: "normalize_newlines ?d = ?d" by blast
  from t l n show ?thesis by (simp add: CR_def LF_def)
qed

section \<open>Properties of the port registry\<close>

lemma py_upper_COM3: "py_upper ''COM3'' = ''COM3''"
  by (simp add: py_upper_def upper_char_def)

text \<open>
  Claim C1 says that no port is ever owned and surrendered at once, and that the take-over
  moves a port from owned to surrendered in one atomic step. The take-over is three
  statements of the bridge module with no lock around them. After the first,
  \<open>surrendered.add\<close>, the port \<open>COM3\<close> of the worker \<open>PORT3\<close> is owned and surrendered.
\<close>

theorem take_over_intermediate_counterexample:
  "''COM3'' \<in> dom (ACTIVE_PORTS (mark_surrendered ''COM3''
      (register ''PORT3'' ''COM3'' \<lparr>ident = 3, port = ''COM3''\<rparr> empty_world)))
   \<and> ''COM3'' \<in> SURRENDERED_PORTS (mark_surrendered ''COM3''
      (register ''PORT3'' ''COM3'' \<lparr>ident = 3, port = ''COM3''\<rparr> empty_world))"
  by (simp add: mark_surrendered_def register_def empty_world_def py_upper_COM3)

text \<open>
  Claim C1, amended: at first no port is owned and surrendered at once, and when none is,
  none is after \<open>unregister\<close>, after \<open>restore\<close>, after the three statements of the
  take-over, and after \<open>register\<close> of a port that is not surrendered. After the take-over
  the port is surrendered and not owned. The take-over is not atomic: when the port is owned,
  it is owned and surrendered after the first statement and still after the second. The
  dictionary \<open>ACTIVE_PORTS\<close> has one entry for a port, so a port has at most one owner.
\<close>

theorem registry_exclusive:
  "exclusive empty_world
   \<and> (exclusive w \<longrightarrow>
        exclusive (unregister p w)
      \<and> exclusive (restore p w)
      \<and> exclusive (take_over p w)
      \<and> (py_upper p \<notin> SURRENDERED_PORTS w \<longrightarrow> exclusive (register name p s w)))
   \<and> py_upper p \<in> SURRENDERED_PORTS (take_over p w)
   \<and> py_upper p \<notin> dom (ACTIVE_PORTS (take_over p w))
   \<and> (py_upper p \<in> dom (ACTIVE_PORTS w) \<longrightarrow>
        \<not> exclusive (mark_surrendered p w)
      \<and> \<not> exclusive (close_owner p (mark_surrendered p w)))"
  by (auto simp: exclusive_def unregister_def restore_def take_over_def register_def
        mark_surrendered_def close_owner_def drop_active_def empty_world_def
        split: option.splits)

text \<open>The worker \<open>PORT3\<close> owns \<open>COM3\<close>, a bridge takes it over and hangs up.\<close>

theorem registry_exclusive_witness:
  "exclusive (register ''PORT3'' ''COM3'' \<lparr>ident = 3, port = ''COM3''\<rparr> empty_world)
   \<and> exclusive (take_over ''COM3''
        (register ''PORT3'' ''COM3'' \<lparr>ident = 3, port = ''COM3''\<rparr> empty_world))
   \<and> ''COM3'' \<in> SURRENDERED_PORTS (take_over ''COM3''
        (register ''PORT3'' ''COM3'' \<lparr>ident = 3, port = ''COM3''\<rparr> empty_world))
   \<and> ''COM3'' \<notin> dom (ACTIVE_PORTS (take_over ''COM3''
        (register ''PORT3'' ''COM3'' \<lparr>ident = 3, port = ''COM3''\<rparr> empty_world)))
   \<and> \<not> exclusive (mark_surrendered ''COM3''
        (register ''PORT3'' ''COM3'' \<lparr>ident = 3, port = ''COM3''\<rparr> empty_world))
   \<and> exclusive (restore ''COM3'' (take_over ''COM3''
        (register ''PORT3'' ''COM3'' \<lparr>ident = 3, port = ''COM3''\<rparr> empty_world)))"
proof -
  let ?s = "\<lparr>ident = 3, port = ''COM3''\<rparr>"
  let ?w = "register ''PORT3'' ''COM3'' ?s empty_world"
  have n: "py_upper ''COM3'' \<notin> SURRENDERED_PORTS empty_world"
    by (simp add: empty_world_def)
  have o: "py_upper ''COM3'' \<in> dom (ACTIVE_PORTS ?w)"
    by (simp add: register_def)
  from registry_exclusive [of empty_world "''COM3''" "''PORT3''" ?s] n
  have e: "exclusive ?w" by blast
  from registry_exclusive [of ?w "''COM3''"] e
  have t: "exclusive (take_over ''COM3'' ?w)" by blast
  from registry_exclusive [of "take_over ''COM3'' ?w" "''COM3''"] t
  have r: "exclusive (restore ''COM3'' (take_over ''COM3'' ?w))" by blast
  from registry_exclusive [of ?w "''COM3''"] o
  have i: "\<not> exclusive (mark_surrendered ''COM3'' ?w)" by blast
  from registry_exclusive [of ?w "''COM3''"]
  have m: "py_upper ''COM3'' \<in> SURRENDERED_PORTS (take_over ''COM3'' ?w)
         \<and> py_upper ''COM3'' \<notin> dom (ACTIVE_PORTS (take_over ''COM3'' ?w))" by blast
  from e t r i m show ?thesis by (simp only: py_upper_COM3) blast
qed

section \<open>Properties of the session loop\<close>








section \<open>Properties of the port worker\<close>

text \<open>
  Claim C3 says that a worker stops for good only when the device is not found at the first
  attempt to open it, and never after the port was opened once; the docstring of
  \<open>port_worker\<close> (``Only retries if a port was once open and then lost'') and the comment in
  the handler (``If the port was never present at startup, bail out permanently'') say the
  same. The handler looks at the text of the exception only. The worker \<open>PORT3\<close> opens
  \<open>COM3\<close> and runs its session; the device is unplugged, the session loop raises, the worker
  retries, the device is not found, and the worker returns.
\<close>

theorem port_worker_stops_after_open:
  "port_worker ''PORT3'' ''COM3''
     [Open_ok \<lparr>ident = 3, port = ''COM3''\<rparr> (\<lambda>w. w)
        (LoopSerialException ''ClearCommError failed (PermissionError(13, Access is denied., None, 5))''),
      Open_serial_exception
        ''could not open port COM3: FileNotFoundError(2, The system cannot find the file specified., None, 2)'']
     empty_world []
   = (Stopped, register ''PORT3'' ''COM3'' \<lparr>ident = 3, port = ''COM3''\<rparr> empty_world,
      [Listening, SerialErrorRetrying, NotPresentSkipping])"
  by (simp add: not_present_def register_def empty_world_def py_upper_COM3)

section \<open>Properties of the bridge prompts\<close>

lemma py_strip_Nil: "py_strip [] = []"
  by (simp add: py_strip_def)

lemma py_strip_3: "py_strip ''3'' = ''3''"
  by (simp add: py_strip_def is_space_def)

lemma py_upper_Nil: "py_upper [] = []"
  by (simp add: py_upper_def)

lemma py_int_3: "py_int ''3'' = Some 3"
  by (simp add: py_int_def py_nat_def is_digit_def max_str_digits_def)

lemma char_of_51: "char_of (51 :: nat) = CHR ''3''"
  by (simp add: char_of_def bit_iff_odd)

lemma str_int_3: "str_int 3 = ''3''"
  by (simp add: str_int_def) (subst str_nat.simps, simp add: char_of_51)

lemma open_from_fail: "(\<And>i. opens i = None) \<Longrightarrow> open_from opens i n = None"
  by (induction n arbitrary: i) simp_all

lemma stage_0_port_3:
  "handle_input nt env \<lparr>stage = 0, vals = v\<rparr> ''3'' w
     = Returns (\<lparr>stage = 1, vals = v\<lparr>port_num := Some 3\<rparr>\<rparr>, w, [AskBaud], NoAction)"
  by (simp add: handle_input_def py_strip_3 py_int_3)

lemma stage_1_default:
  "handle_input nt env \<lparr>stage = Suc 0, vals = v\<rparr> [] w
     = Returns (\<lparr>stage = 2, vals = v\<lparr>baud := Some 115200\<rparr>\<rparr>, w, [AskDataBits], NoAction)"
  by (simp add: handle_input_def py_strip_Nil)

lemma stage_2_default:
  "handle_input nt env \<lparr>stage = 2, vals = v\<rparr> [] w
     = Returns (\<lparr>stage = 3, vals = v\<lparr>data_bits := Some 8\<rparr>\<rparr>, w, [AskStopBits], NoAction)"
  by (simp add: handle_input_def py_strip_Nil)

lemma stage_3_default:
  "handle_input nt env \<lparr>stage = 3, vals = v\<rparr> [] w
     = Returns (\<lparr>stage = 4, vals = v\<lparr>stop_bits := Some 1\<rparr>\<rparr>, w, [AskParity], NoAction)"
  by (simp add: handle_input_def py_strip_Nil)

lemma stage_4_default:
  "handle_input nt env \<lparr>stage = 4, vals = v\<rparr> [] w
     = Returns (\<lparr>stage = 5, vals = v\<lparr>parity := Some CHR ''N''\<rparr>\<rparr>, w, [AskXonXoff], NoAction)"
  by (simp add: handle_input_def py_strip_Nil py_upper_Nil)

lemma stage_5_default:
  "handle_input nt env \<lparr>stage = 5, vals = v\<rparr> [] w
     = Returns (\<lparr>stage = 6, vals = v\<lparr>xonxoff := Some False\<rparr>\<rparr>, w, [AskRtsCts], NoAction)"
  by (simp add: handle_input_def py_strip_Nil py_upper_Nil yes_no_def)

lemma stage_6_default:
  "handle_input nt env \<lparr>stage = 6, vals = v\<rparr> [] w
     = open_bridge nt env \<lparr>stage = 6, vals = v\<lparr>rtscts := Some False\<rparr>\<rparr> w"
  by (simp add: handle_input_def py_strip_Nil py_upper_Nil yes_no_def)

lemma open_bridge_COM3_fails:
  "open_bridge False (\<lambda>name attempt. None)
     \<lparr>stage = 6,
      vals = \<lparr>port_num = Some 3, baud = Some 115200, data_bits = Some 8, stop_bits = Some 1,
               parity = Some CHR ''N'', xonxoff = Some False, rtscts = Some False\<rparr>\<rparr>
     (register ''PORT3'' ''COM3'' \<lparr>ident = 3, port = ''COM3''\<rparr> empty_world)
   = Returns
      (\<lparr>stage = 0,
        vals = \<lparr>port_num = Some 3, baud = Some 115200, data_bits = Some 8, stop_bits = Some 1,
                 parity = Some CHR ''N'', xonxoff = Some False, rtscts = Some False\<rparr>\<rparr>,
       \<lparr>ACTIVE_PORTS = Map.empty, SURRENDERED_PORTS = {''COM3''}, closed = {3},
        closed_sockets = {}\<rparr>,
       [TakingOver ''COM3'', UnableToOpen ''COM3'', PressAnyKey, IntroBanner, AskPortNumber],
       NoAction)"
  by (simp add: open_bridge_def Let_def str_int_3 py_upper_COM3 open_from_fail
        take_over_def mark_surrendered_def close_owner_def drop_active_def register_def
        empty_world_def)

text \<open>
  Claim C7 says that after a take-over and a failure to open the port, the port does not
  stay in the surrendered set without an attempt to take it out. A session asks for a bridge
  to \<open>COM3\<close>, which the worker \<open>PORT3\<close> owns, with the defaults for every other prompt, and
  all six attempts to open the port fail. The module reports the failure and asks for the
  port number again, as the claim says; but \<open>COM3\<close> is still in the surrendered set, it has
  no owner, its worker's serial object is closed, and the failure path has no statement
  that takes it out of the set, as the ATH path of \<open>handle_input_runtime\<close> has.
\<close>

theorem bridge_failure_leaves_port_surrendered:
  "prompt_lines False (\<lambda>name attempt. None) (fst create_session)
     [''3'', [], [], [], [], [], []]
     (register ''PORT3'' ''COM3'' \<lparr>ident = 3, port = ''COM3''\<rparr> empty_world)
   = Returns
      (\<lparr>stage = 0,
        vals = \<lparr>port_num = Some 3, baud = Some 115200, data_bits = Some 8, stop_bits = Some 1,
                 parity = Some CHR ''N'', xonxoff = Some False, rtscts = Some False\<rparr>\<rparr>,
       \<lparr>ACTIVE_PORTS = Map.empty, SURRENDERED_PORTS = {''COM3''}, closed = {3},
        closed_sockets = {}\<rparr>,
       [AskBaud, AskDataBits, AskStopBits, AskParity, AskXonXoff, AskRtsCts,
        TakingOver ''COM3'', UnableToOpen ''COM3'', PressAnyKey, IntroBanner, AskPortNumber],
       NoAction)"
  by (simp add: create_session_def py_strip_Nil py_strip_3 stage_0_port_3 stage_1_default
        stage_2_default stage_3_default stage_4_default stage_5_default stage_6_default
        open_bridge_COM3_fails)

end
